theory Spec2Isabelle
  imports Main
begin

section \<open>Data model (src/main.py)\<close>

text \<open>
  The five tables of \<^verbatim>\<open>main.py\<close>, one record per mapped class. Record fields are
  global names in HOL, so each column carries the prefix of its class:
  \<^verbatim>\<open>u_\<close> for \<^verbatim>\<open>User\<close>, \<^verbatim>\<open>ut_\<close> for \<^verbatim>\<open>UserTime\<close>, \<^verbatim>\<open>it_\<close> for \<^verbatim>\<open>ItemModel\<close>,
  \<^verbatim>\<open>ue_\<close> for \<^verbatim>\<open>UserEarnedItem\<close>, \<^verbatim>\<open>st_\<close> for \<^verbatim>\<open>SessionToken\<close>.
  Python integers are unbounded, hence \<open>int\<close>. A \<^verbatim>\<open>datetime\<close> is a count of
  microseconds, hence \<open>int\<close> as well.
\<close>

record user =
  u_id :: int
  u_document :: string
  u_name :: string
  u_school :: string
  u_gender :: string
  u_money :: string
  u_level :: int

record user_time =
  ut_id :: int
  ut_user_id :: int
  ut_time :: int
  ut_level :: int

record item_model =
  it_id :: int
  it_name :: string
  it_item_type :: string

record user_earned_item =
  ue_id :: int
  ue_user_id :: int
  ue_item_id :: int

record session_token =
  st_id :: int
  st_user_id :: int
  st_token :: string
  st_expires_at :: int

text \<open>The committed database: each table is the list of its rows, in insertion order.\<close>

record db =
  users :: "user list"
  user_time :: "user_time list"
  item :: "item_model list"
  user_earned_items :: "user_earned_item list"
  sessions :: "session_token list"

text \<open>
  \<^verbatim>\<open>HTTPException(status, detail)\<close>. The detail texts of the source are Spanish
  sentences; each is named here by a constructor.
\<close>

datatype detail =
  School_invalido
  | Gender_invalido
  | Documento_ya_registrado
  | Falta_token_o_formato_invalido
  | Token_invalido_o_expirado
  | Formato_invalido_en_campo_money

datatype error =
  HTTPException int detail
  | RequestValidationError
  | ResponseValidationError

definition SCHOOL_VALUES :: "string list" where
  "SCHOOL_VALUES = [''Aguachica'', ''La Argentina'', ''Aractaca'']"

definition GENDER_VALUES :: "string list" where
  "GENDER_VALUES = [''Masculino'', ''Femenino'']"

text \<open>\<^verbatim>\<open>LEVEL_REWARDS.get(k, [])\<close>: the dictionary has the keys 1 to 4.\<close>

definition LEVEL_REWARDS_get :: "int \<Rightarrow> string list" where
  "LEVEL_REWARDS_get k =
     (if k = 1 then [''cinturon'', ''cristal-rojo'']
      else if k = 2 then [''pechera'', ''cristal-amarillo'']
      else if k = 3 then [''botas'', ''cristal-gris'']
      else if k = 4 then [''casco'', ''cristal-verde'']
      else [])"

text \<open>
  An integer primary key without a supplied value takes the largest key of the table
  plus one (1 on an empty table).
\<close>

definition next_id :: "int list \<Rightarrow> int" where
  "next_id ks = fold max ks 0 + 1"

text \<open>\<^verbatim>\<open>db.query(User).get(k)\<close>: the row with primary key \<open>k\<close>, if any.\<close>

definition get_user :: "db \<Rightarrow> int \<Rightarrow> user option" where
  "get_user d k = find (\<lambda>u. u_id u = k) (users d)"

section \<open>Python's \<^verbatim>\<open>int(str)\<close> and \<^verbatim>\<open>str(int)\<close>\<close>

text \<open>
  \<^verbatim>\<open>int(s)\<close> in base 10 on ASCII text, as CPython reads it: leading white space
  (tab, line feed, vertical tab, form feed, carriage return, space) is skipped, one
  sign \<^verbatim>\<open>+\<close> or \<^verbatim>\<open>-\<close> may follow, then at least one decimal digit, with single
  underscores allowed between digits, then white space up to the end. Anything else
  raises \<^verbatim>\<open>ValueError\<close>, which is \<open>None\<close> here. Characters outside ASCII are not
  digits in this model, and the interpreter's optional limit on the number of digits
  is not modelled.
\<close>

definition is_space :: "char \<Rightarrow> bool" where
  "is_space c = (c \<in> set [CHR 0x09, CHR 0x0A, CHR 0x0B, CHR 0x0C, CHR 0x0D, CHR 0x20])"

definition is_digit :: "char \<Rightarrow> bool" where
  "is_digit c = (48 \<le> (of_char c :: nat) \<and> (of_char c :: nat) \<le> 57)"

definition digit_val :: "char \<Rightarrow> nat" where
  "digit_val c = of_char c - 48"

text \<open>
  The digit scan: \<open>acc\<close> is the value read so far, the flag says that the previous
  character was an underscore. The scan stops at the first character that is neither
  a digit nor an underscore and returns the rest; two underscores in a row and a
  trailing underscore are errors.
\<close>

fun scan_digits :: "nat \<Rightarrow> bool \<Rightarrow> string \<Rightarrow> (nat \<times> string) option" where
  "scan_digits acc prev_us [] = (if prev_us then None else Some (acc, []))"
| "scan_digits acc prev_us (c # cs) =
     (if is_digit c then scan_digits (10 * acc + digit_val c) False cs
      else if c = CHR ''_'' then (if prev_us then None else scan_digits acc True cs)
      else if prev_us then None
      else Some (acc, c # cs))"

definition strip_sign :: "string \<Rightarrow> bool \<times> string" where
  "strip_sign s =
     (case s of
        [] \<Rightarrow> (False, [])
      | c # cs \<Rightarrow>
          if c = CHR ''+'' then (False, cs)
          else if c = CHR ''-'' then (True, cs)
          else (False, s))"

definition py_int :: "string \<Rightarrow> int option" where
  "py_int s =
     (case strip_sign (dropWhile is_space s) of
        (neg, body) \<Rightarrow>
          (case body of
             [] \<Rightarrow> None
           | c # cs \<Rightarrow>
               if \<not> is_digit c then None
               else
                 (case scan_digits 0 False body of
                    None \<Rightarrow> None
                  | Some (n, rest) \<Rightarrow>
                      if dropWhile is_space rest = []
                      then Some (if neg then - int n else int n)
                      else None)))"

text \<open>\<^verbatim>\<open>str(i)\<close>: the decimal digits, most significant first, after \<^verbatim>\<open>-\<close> if negative.\<close>

definition digit_char :: "nat \<Rightarrow> char" where
  "digit_char n = char_of (48 + n)"

fun dec :: "nat \<Rightarrow> string" where
  "dec n = (if n < 10 then [digit_char n] else dec (n div 10) @ [digit_char (n mod 10)])"

declare dec.simps [simp del]

definition py_str :: "int \<Rightarrow> string" where
  "py_str i = (if i < 0 then CHR ''-'' # dec (nat (- i)) else dec (nat i))"

section \<open>Request and response schemas\<close>

record complete_level_in =
  coins_earned :: int
  time_spent :: int

text \<open>\<^verbatim>\<open>Item\<close> and \<^verbatim>\<open>UserOut\<close>, the response schemas.\<close>

record item_out =
  io_id :: int
  io_name :: string
  io_item_type :: string

record user_out =
  uo_id :: int
  uo_document :: string
  uo_name :: string
  uo_school :: string
  uo_gender :: string
  uo_money :: string
  uo_level :: int
  uo_items :: "item_out list"

definition Item_model_validate :: "item_model \<Rightarrow> item_out" where
  "Item_model_validate i = \<lparr>io_id = it_id i, io_name = it_name i, io_item_type = it_item_type i\<rparr>"

text \<open>
  \<^verbatim>\<open>db.query(ItemModel).join(UserEarnedItem).filter(UserEarnedItem.user_id == uid).all()\<close>:
  the catalog items to which the player has a link. The query loads one entity, so
  each item is returned once.
\<close>

definition has_link :: "user_earned_item list \<Rightarrow> int \<Rightarrow> int \<Rightarrow> bool" where
  "has_link es uid iid = (find (\<lambda>e. ue_user_id e = uid \<and> ue_item_id e = iid) es \<noteq> None)"

definition earned_items :: "db \<Rightarrow> int \<Rightarrow> item_model list" where
  "earned_items d uid = filter (\<lambda>i. has_link (user_earned_items d) uid (it_id i)) (item d)"

text \<open>
  The view that \<^verbatim>\<open>login\<close>, \<^verbatim>\<open>me\<close> and \<^verbatim>\<open>complete_level\<close> build by hand. The
  school and the gender of a stored row are among the fixed values (the check
  constraints of the table), so the constructor of \<^verbatim>\<open>UserOut\<close> accepts them.
\<close>

definition build_user_out :: "db \<Rightarrow> user \<Rightarrow> user_out" where
  "build_user_out d u =
     \<lparr>uo_id = u_id u, uo_document = u_document u, uo_name = u_name u,
      uo_school = u_school u, uo_gender = u_gender u, uo_money = u_money u,
      uo_level = u_level u,
      uo_items = map Item_model_validate (earned_items d (u_id u))\<rparr>"

section \<open>\<^verbatim>\<open>complete_level\<close>\<close>

text \<open>
  The session is created with \<^verbatim>\<open>autoflush=False\<close>: rows passed to \<^verbatim>\<open>db.add\<close> stay
  pending until \<^verbatim>\<open>db.commit()\<close>, and the queries of the handler read the committed
  tables. The loop over \<^verbatim>\<open>items_to_add\<close> therefore tests \<^verbatim>\<open>already_has\<close> against the
  committed links and collects the item ids of the links to insert.
\<close>

fun grant_loop :: "user_earned_item list \<Rightarrow> int \<Rightarrow> item_model list \<Rightarrow> int list" where
  "grant_loop stored uid [] = []"
| "grant_loop stored uid (i # itms) =
     (if \<not> has_link stored uid (it_id i)
      then it_id i # grant_loop stored uid itms
      else grant_loop stored uid itms)"

text \<open>The flush at commit: each pending link is inserted with the next key.\<close>

fun insert_earned :: "user_earned_item list \<Rightarrow> int \<Rightarrow> int list \<Rightarrow> user_earned_item list" where
  "insert_earned es uid [] = es"
| "insert_earned es uid (k # ks) =
     insert_earned
       (es @ [\<lparr>ue_id = next_id (map ue_id es), ue_user_id = uid, ue_item_id = k\<rparr>]) uid ks"

text \<open>The update of the row of \<open>current\<close> at commit.\<close>

definition store_user :: "user \<Rightarrow> user list \<Rightarrow> user list" where
  "store_user c us = map (\<lambda>u. if u_id u = u_id c then c else u) us"

text \<open>
  The handler. \<open>current\<close> is the row that \<^verbatim>\<open>require_auth\<close> loaded. An exception leaves
  the handler before \<^verbatim>\<open>db.commit()\<close>, and \<^verbatim>\<open>get_db\<close> closes the session: the result
  \<open>Inl\<close> carries no database, the committed one stays as it was.
\<close>

definition complete_level :: "complete_level_in \<Rightarrow> db \<Rightarrow> user \<Rightarrow> error + (db \<times> user_out)" where
  "complete_level data d current =
     (let c1 = (if u_level current < 5 then current\<lparr>u_level := u_level current + 1\<rparr> else current)
      in case py_int (u_money c1) of
           None \<Rightarrow> Inl (HTTPException 500 Formato_invalido_en_campo_money)
         | Some current_money \<Rightarrow>
             (let c2 = c1\<lparr>u_money := py_str (current_money + coins_earned data)\<rparr>;
                  time_record = \<lparr>ut_id = next_id (map ut_id (user_time d)),
                                 ut_user_id = u_id c2,
                                 ut_time = time_spent data,
                                 ut_level = u_level c2 - 1\<rparr>;
                  rewards = LEVEL_REWARDS_get (u_level c2 - 1);
                  items_to_add = filter (\<lambda>i. it_name i \<in> set rewards) (item d);
                  pending = grant_loop (user_earned_items d) (u_id c2) items_to_add;
                  d' = d\<lparr>users := store_user c2 (users d),
                         user_time := user_time d @ [time_record],
                         user_earned_items := insert_earned (user_earned_items d) (u_id c2) pending\<rparr>
              in Inr (d', build_user_out d' c2)))"

text \<open>
  The committed database after a request, with its response: an error leaves the
  database as it was.
\<close>

definition committed :: "db \<Rightarrow> error + (db \<times> 'a) \<Rightarrow> db" where
  "committed d r = (case r of Inl e \<Rightarrow> d | Inr (d', out) \<Rightarrow> d')"

text \<open>
  A sequence of calls by the player with key \<open>uid\<close>: each request loads the player's
  row again, as \<^verbatim>\<open>require_auth\<close> does, and the next request starts from the database the
  previous one committed. A request for a player that does not exist is refused.
\<close>

fun complete_level_calls :: "db \<Rightarrow> int \<Rightarrow> complete_level_in list \<Rightarrow> db" where
  "complete_level_calls d uid [] = d"
| "complete_level_calls d uid (x # xs) =
     (case get_user d uid of
        None \<Rightarrow> complete_level_calls d uid xs
      | Some current \<Rightarrow> complete_level_calls (committed d (complete_level x d current)) uid xs)"

section \<open>Session helpers and \<^verbatim>\<open>logout\<close>\<close>

text \<open>
  \<^verbatim>\<open>user_by_token\<close>: the first session with this token that expires after \<open>now\<close>
  (the value of \<^verbatim>\<open>datetime.utcnow()\<close>), then the user with the session's key.
\<close>

definition user_by_token :: "db \<Rightarrow> int \<Rightarrow> string \<Rightarrow> user option" where
  "user_by_token d now token =
     (case find (\<lambda>s. st_token s = token \<and> now < st_expires_at s) (sessions d) of
        None \<Rightarrow> None
      | Some sess \<Rightarrow> get_user d (st_user_id sess))"

text \<open>
  \<^verbatim>\<open>require_auth\<close>: the header must start with \<^verbatim>\<open>Bearer \<close>; the token is the second
  piece of the header split at spaces, that is, what follows the prefix up to the next
  space.
\<close>

definition require_auth :: "db \<Rightarrow> int \<Rightarrow> string option \<Rightarrow> error + user" where
  "require_auth d now authorization =
     (case authorization of
        None \<Rightarrow> Inl (HTTPException 401 Falta_token_o_formato_invalido)
      | Some a \<Rightarrow>
          if a = [] \<or> take 7 a \<noteq> ''Bearer ''
          then Inl (HTTPException 401 Falta_token_o_formato_invalido)
          else
            (case user_by_token d now (takeWhile (\<lambda>c. c \<noteq> CHR '' '') (drop 7 a)) of
               None \<Rightarrow> Inl (HTTPException 401 Token_invalido_o_expirado)
             | Some u \<Rightarrow> Inr u))"

text \<open>
  \<^verbatim>\<open>logout\<close>: deletes the sessions with this token and returns the number of rows
  deleted.
\<close>

definition logout :: "string \<Rightarrow> db \<Rightarrow> db \<times> nat" where
  "logout token d =
     (d\<lparr>sessions := filter (\<lambda>s. st_token s \<noteq> token) (sessions d)\<rparr>,
      length (filter (\<lambda>s. st_token s = token) (sessions d)))"

section \<open>\<^verbatim>\<open>register\<close> and \<^verbatim>\<open>update_me\<close>\<close>

record register_in =
  ri_document :: string
  ri_name :: string
  ri_school :: string
  ri_gender :: string

text \<open>The constraints that \<^verbatim>\<open>RegisterIn\<close> declares (\<^verbatim>\<open>min_length\<close>, the two literals).\<close>

definition RegisterIn_valid :: "register_in \<Rightarrow> bool" where
  "RegisterIn_valid p =
     (3 \<le> length (ri_document p) \<and> 1 \<le> length (ri_name p)
      \<and> ri_school p \<in> set SCHOOL_VALUES \<and> ri_gender p \<in> set GENDER_VALUES)"

text \<open>
  The handler. \<^verbatim>\<open>money\<close> is not set and takes the column default \<^verbatim>\<open>"0"\<close>. The
  handler returns the mapped row itself.
\<close>

definition register :: "register_in \<Rightarrow> db \<Rightarrow> error + (db \<times> user)" where
  "register payload d =
     (if ri_school payload \<notin> set SCHOOL_VALUES then Inl (HTTPException 400 School_invalido)
      else if ri_gender payload \<notin> set GENDER_VALUES then Inl (HTTPException 400 Gender_invalido)
      else if find (\<lambda>u. u_document u = ri_document payload) (users d) \<noteq> None
        then Inl (HTTPException 400 Documento_ya_registrado)
      else
        (let usr = \<lparr>u_id = next_id (map u_id (users d)),
                    u_document = ri_document payload,
                    u_name = ri_name payload,
                    u_school = ri_school payload,
                    u_gender = ri_gender payload,
                    u_money = ''0'',
                    u_level = 1\<rparr>
         in Inr (d\<lparr>users := users d @ [usr]\<rparr>, usr)))"

text \<open>\<^verbatim>\<open>UpdateMeIn\<close>: every field is optional, \<open>None\<close> is an absent field.\<close>

record update_me_in =
  um_name :: "string option"
  um_school :: "string option"
  um_gender :: "string option"
  um_money :: "string option"
  um_level :: "int option"

text \<open>
  The constraints that \<^verbatim>\<open>UpdateMeIn\<close> declares: the two literals and \<^verbatim>\<open>ge=1\<close> on
  the level. \<^verbatim>\<open>money\<close> is any string.
\<close>

definition UpdateMeIn_valid :: "update_me_in \<Rightarrow> bool" where
  "UpdateMeIn_valid p =
     ((case um_school p of None \<Rightarrow> True | Some s \<Rightarrow> s \<in> set SCHOOL_VALUES)
      \<and> (case um_gender p of None \<Rightarrow> True | Some g \<Rightarrow> g \<in> set GENDER_VALUES)
      \<and> (case um_level p of None \<Rightarrow> True | Some l \<Rightarrow> 1 \<le> l))"

text \<open>
  The handler assigns field by field, in the order of the source, and raises in the
  middle when the school or the gender is not one of the fixed values; the assignments
  made before are to the session's object and are lost with it. It returns the mapped
  row itself.
\<close>

definition update_me :: "update_me_in \<Rightarrow> db \<Rightarrow> user \<Rightarrow> error + (db \<times> user)" where
  "update_me data d current =
     (let c1 = (case um_name data of None \<Rightarrow> current | Some n \<Rightarrow> current\<lparr>u_name := n\<rparr>)
      in if (case um_school data of None \<Rightarrow> False | Some s \<Rightarrow> s \<notin> set SCHOOL_VALUES)
         then Inl (HTTPException 400 School_invalido)
         else
           (let c2 = (case um_school data of None \<Rightarrow> c1 | Some s \<Rightarrow> c1\<lparr>u_school := s\<rparr>)
            in if (case um_gender data of None \<Rightarrow> False | Some g \<Rightarrow> g \<notin> set GENDER_VALUES)
               then Inl (HTTPException 400 Gender_invalido)
               else
                 (let c3 = (case um_gender data of None \<Rightarrow> c2 | Some g \<Rightarrow> c2\<lparr>u_gender := g\<rparr>);
                      c4 = (case um_money data of None \<Rightarrow> c3 | Some m \<Rightarrow> c3\<lparr>u_money := m\<rparr>);
                      c5 = (case um_level data of None \<Rightarrow> c4 | Some l \<Rightarrow> c4\<lparr>u_level := l\<rparr>)
                  in Inr (d\<lparr>users := store_user c5 (users d)\<rparr>, c5))))"

section \<open>The response model\<close>

text \<open>
  \<^verbatim>\<open>register\<close> and \<^verbatim>\<open>update_me\<close> are declared with \<^verbatim>\<open>response_model=UserOut\<close> and
  return a \<^verbatim>\<open>User\<close> row. The framework then builds the \<^verbatim>\<open>UserOut\<close> from the attributes
  of the returned object (\<^verbatim>\<open>from_attributes=True\<close>): every field of \<^verbatim>\<open>UserOut\<close> is
  required, and a missing attribute, a value of the wrong type or a school or gender
  outside the literals is a response validation error, which the client sees as
  status 500. An object is modelled by the list of its attributes.
\<close>

datatype pyval = PyInt int | PyStr string | PyItems "item_out list"

text \<open>The attributes of a \<^verbatim>\<open>User\<close> row: the seven columns of the class.\<close>

definition User_attrs :: "user \<Rightarrow> (string \<times> pyval) list" where
  "User_attrs u =
     [(''id'', PyInt (u_id u)), (''document'', PyStr (u_document u)),
      (''name'', PyStr (u_name u)), (''school'', PyStr (u_school u)),
      (''gender'', PyStr (u_gender u)), (''money'', PyStr (u_money u)),
      (''level'', PyInt (u_level u))]"

definition attr_int :: "(string \<times> pyval) list \<Rightarrow> string \<Rightarrow> int option" where
  "attr_int a k = (case map_of a k of Some (PyInt i) \<Rightarrow> Some i | _ \<Rightarrow> None)"

definition attr_str :: "(string \<times> pyval) list \<Rightarrow> string \<Rightarrow> string option" where
  "attr_str a k = (case map_of a k of Some (PyStr s) \<Rightarrow> Some s | _ \<Rightarrow> None)"

definition attr_items :: "(string \<times> pyval) list \<Rightarrow> string \<Rightarrow> item_out list option" where
  "attr_items a k = (case map_of a k of Some (PyItems xs) \<Rightarrow> Some xs | _ \<Rightarrow> None)"

definition UserOut_from_attributes :: "(string \<times> pyval) list \<Rightarrow> error + user_out" where
  "UserOut_from_attributes a =
     (case attr_int a ''id'' of None \<Rightarrow> Inl ResponseValidationError | Some i \<Rightarrow>
     (case attr_str a ''document'' of None \<Rightarrow> Inl ResponseValidationError | Some doc \<Rightarrow>
     (case attr_str a ''name'' of None \<Rightarrow> Inl ResponseValidationError | Some nm \<Rightarrow>
     (case attr_str a ''school'' of None \<Rightarrow> Inl ResponseValidationError | Some sc \<Rightarrow>
     (case attr_str a ''gender'' of None \<Rightarrow> Inl ResponseValidationError | Some ge \<Rightarrow>
     (case attr_str a ''money'' of None \<Rightarrow> Inl ResponseValidationError | Some mo \<Rightarrow>
     (case attr_int a ''level'' of None \<Rightarrow> Inl ResponseValidationError | Some lv \<Rightarrow>
     (case attr_items a ''items'' of None \<Rightarrow> Inl ResponseValidationError | Some its \<Rightarrow>
        if sc \<in> set SCHOOL_VALUES \<and> ge \<in> set GENDER_VALUES
        then Inr \<lparr>uo_id = i, uo_document = doc, uo_name = nm, uo_school = sc,
                  uo_gender = ge, uo_money = mo, uo_level = lv, uo_items = its\<rparr>
        else Inl ResponseValidationError))))))))"

text \<open>
  The two endpoints as the client sees them: the request body is checked against its
  schema before the handler runs, the handler's row goes through the response model
  after it has committed. The result is the committed database and the response.
\<close>

definition post_auth_register :: "register_in \<Rightarrow> db \<Rightarrow> db \<times> (error + user_out)" where
  "post_auth_register payload d =
     (if \<not> RegisterIn_valid payload then (d, Inl RequestValidationError)
      else
        (case register payload d of
           Inl e \<Rightarrow> (d, Inl e)
         | Inr (d', usr) \<Rightarrow> (d', UserOut_from_attributes (User_attrs usr))))"

definition put_me :: "update_me_in \<Rightarrow> db \<Rightarrow> user \<Rightarrow> db \<times> (error + user_out)" where
  "put_me data d current =
     (if \<not> UpdateMeIn_valid data then (d, Inl RequestValidationError)
      else
        (case update_me data d current of
           Inl e \<Rightarrow> (d, Inl e)
         | Inr (d', usr) \<Rightarrow> (d', UserOut_from_attributes (User_attrs usr))))"

text \<open>The pair that a link row stands for.\<close>

definition link_key :: "user_earned_item \<Rightarrow> int \<times> int" where
  "link_key e = (ue_user_id e, ue_item_id e)"

section \<open>Concrete states\<close>

text \<open>
  A database with one player at level 1 and balance \<^verbatim>\<open>"0"\<close>, a catalog of three
  items and one session, and a request body, on which the results below are evaluated.
\<close>

definition ex_user :: user where
  "ex_user = \<lparr>u_id = 1, u_document = ''A12'', u_name = ''Ana'', u_school = ''Aguachica'',
              u_gender = ''Femenino'', u_money = ''0'', u_level = 1\<rparr>"

definition ex_items :: "item_model list" where
  "ex_items =
     [\<lparr>it_id = 1, it_name = ''cinturon'', it_item_type = ''armadura''\<rparr>,
      \<lparr>it_id = 2, it_name = ''cristal-rojo'', it_item_type = ''cristal''\<rparr>,
      \<lparr>it_id = 3, it_name = ''casco'', it_item_type = ''armadura''\<rparr>]"

definition ex_db :: db where
  "ex_db = \<lparr>users = [ex_user], user_time = [], item = ex_items, user_earned_items = [],
            sessions = [\<lparr>st_id = 1, st_user_id = 1, st_token = ''tok'', st_expires_at = 100\<rparr>]\<rparr>"

definition ex_data :: complete_level_in where
  "ex_data = \<lparr>coins_earned = 10, time_spent = 30\<rparr>"

text \<open>
  The same player at level 4, with a negative balance, with a balance that is no
  number, and at level 3 with balance \<^verbatim>\<open>"10"\<close>, each in a database of its own.
\<close>

definition ex_user4 :: user where
  "ex_user4 = ex_user\<lparr>u_level := 4\<rparr>"

definition ex_db4 :: db where
  "ex_db4 = ex_db\<lparr>users := [ex_user4]\<rparr>"







definition ex_payload :: register_in where
  "ex_payload = \<lparr>ri_document = ''B34'', ri_name = ''Luis'', ri_school = ''Aractaca'',
                 ri_gender = ''Masculino''\<rparr>"

definition ex_bad_school :: update_me_in where
  "ex_bad_school = \<lparr>um_name = Some ''Eva'', um_school = Some ''InvalidSchool'',
                     um_gender = None, um_money = None, um_level = None\<rparr>"

section \<open>Python integers and their text\<close>



lemma digit_char_is_digit: "n < 10 \<Longrightarrow> is_digit (digit_char n)"
  by (simp add: is_digit_def digit_char_def)

lemma digit_val_digit_char: "n < 10 \<Longrightarrow> digit_val (digit_char n) = n"
  by (simp add: digit_val_def digit_char_def)

lemma scan_digits_dec:
  "scan_digits acc b (dec n @ rest) = scan_digits (acc * 10 ^ length (dec n) + n) False rest"
proof (induction n arbitrary: acc b rest rule: dec.induct)
  case (1 n)
  show ?case
  proof (cases "n < 10")
    case True
    then show ?thesis
      by (simp add: dec.simps [of n] digit_char_is_digit digit_val_digit_char mult.commute)
  next
    case False
    have d: "n mod 10 < 10" by simp
    from False have "scan_digits acc b (dec n @ rest)
        = scan_digits acc b (dec (n div 10) @ (digit_char (n mod 10) # rest))"
      by (simp add: dec.simps [of n])
    also have "\<dots> = scan_digits (acc * 10 ^ length (dec (n div 10)) + n div 10) False
         (digit_char (n mod 10) # rest)"
      using "1.IH" [OF False] by simp
    also have "\<dots> = scan_digits (acc * 10 ^ length (dec n) + n) False rest"
      using False d by (simp add: dec.simps [of n] digit_char_is_digit digit_val_digit_char algebra_simps)
    finally show ?thesis .
  qed
qed

lemma dec_hd: "\<exists>c cs. dec n = c # cs \<and> is_digit c"
proof (induction n rule: dec.induct)
  case (1 n)
  show ?case
  proof (cases "n < 10")
    case True
    then show ?thesis by (simp add: dec.simps [of n] digit_char_is_digit)
  next
    case False
    with "1.IH" obtain c cs where "dec (n div 10) = c # cs" "is_digit c" by blast
    with False show ?thesis by (simp add: dec.simps [of n])
  qed
qed

lemma is_digit_not_space: "is_digit c \<Longrightarrow> \<not> is_space c"
  by (auto simp: is_digit_def is_space_def)

lemma is_digit_not_sign: "is_digit c \<Longrightarrow> c \<noteq> CHR ''+'' \<and> c \<noteq> CHR ''-''"
  by (auto simp: is_digit_def)

lemma py_int_dec: "py_int (dec n) = Some (int n)"
proof -
  obtain c cs where d: "dec n = c # cs" "is_digit c" using dec_hd by blast
  have s: "scan_digits 0 False (dec n) = Some (n, [])"
    using scan_digits_dec [of 0 False n "[]"] by simp
  show ?thesis
    using d s is_digit_not_space [OF d(2)] is_digit_not_sign [OF d(2)]
    by (simp add: py_int_def strip_sign_def)
qed

lemma py_int_neg_dec: "py_int (CHR ''-'' # dec n) = Some (- int n)"
proof -
  obtain c cs where d: "dec n = c # cs" "is_digit c" using dec_hd by blast
  have s: "scan_digits 0 False (dec n) = Some (n, [])"
    using scan_digits_dec [of 0 False n "[]"] by simp
  show ?thesis
    using d s
    by (simp add: py_int_def strip_sign_def is_space_def)
qed

lemma py_int_py_str: "py_int (py_str i) = Some i"
  by (simp add: py_str_def py_int_dec py_int_neg_dec)


section \<open>The level transition\<close>

lemma find_store_user_same:
  "find (\<lambda>u. u_id u = k) us = Some x \<Longrightarrow> u_id c = k \<Longrightarrow>
   find (\<lambda>u. u_id u = k) (store_user c us) = Some c"
  by (induction us) (auto simp: store_user_def split: if_splits)

lemma find_store_user_other:
  "u_id c \<noteq> k \<Longrightarrow> find (\<lambda>u. u_id u = k) (store_user c us) = find (\<lambda>u. u_id u = k) us"
  by (induction us) (auto simp: store_user_def)

lemma get_user_id: "get_user d k = Some c \<Longrightarrow> u_id c = k"
  by (auto simp: get_user_def find_Some_iff)

lemma get_user_mem: "get_user d k = Some c \<Longrightarrow> c \<in> set (users d)"
  by (auto simp: get_user_def find_Some_iff)

lemma complete_level_Inl_iff:
  "complete_level data d current = Inl e \<longleftrightarrow>
     py_int (u_money current) = None \<and> e = HTTPException 500 Formato_invalido_en_campo_money"
  by (auto simp: complete_level_def Let_def split: option.splits)

lemma complete_level_Inr:
  assumes "py_int (u_money current) = Some m"
  shows "\<exists>d' out. complete_level data d current = Inr (d', out)
     \<and> users d' = store_user
         (current\<lparr>u_level := (if u_level current < 5 then u_level current + 1 else u_level current),
                  u_money := py_str (m + coins_earned data)\<rparr>) (users d)
     \<and> user_time d' = user_time d @
         [\<lparr>ut_id = next_id (map ut_id (user_time d)), ut_user_id = u_id current,
           ut_time = time_spent data,
           ut_level = (if u_level current < 5 then u_level current + 1 else u_level current) - 1\<rparr>]
     \<and> item d' = item d \<and> sessions d' = sessions d
     \<and> user_earned_items d' = insert_earned (user_earned_items d) (u_id current)
          (grant_loop (user_earned_items d) (u_id current)
            (filter (\<lambda>i. it_name i \<in> set (LEVEL_REWARDS_get
               ((if u_level current < 5 then u_level current + 1 else u_level current) - 1))) (item d)))"
  using assms by (simp add: complete_level_def Let_def)


lemma committed_complete_level_None:
  "py_int (u_money current) = None \<Longrightarrow> committed d (complete_level data d current) = d"
  by (simp add: complete_level_def committed_def Let_def)





text \<open>The theorem at the player of the concrete database, whose level goes from 1 to 2.\<close>

lemma ex_get: "get_user ex_db 1 = Some ex_user"
  by (simp add: get_user_def ex_db_def ex_user_def)

lemma ex_money: "py_int (u_money ex_user) = Some 0"
  by (simp add: ex_user_def py_int_def strip_sign_def is_space_def is_digit_def digit_val_def)



section \<open>Reward links\<close>

lemma has_link_iff: "has_link es uid iid \<longleftrightarrow> (uid, iid) \<in> set (map link_key es)"
  by (induction es) (auto simp: has_link_def link_key_def)

lemma insert_earned_keys:
  "map link_key (insert_earned es uid ks) = map link_key es @ map (Pair uid) ks"
  by (induction ks arbitrary: es) (auto simp: link_key_def)

lemma set_grant_loop:
  "set (grant_loop es uid itms) = {it_id i | i. i \<in> set itms \<and> \<not> has_link es uid (it_id i)}"
  by (induction itms) auto

lemma distinct_grant_loop:
  "distinct (map it_id itms) \<Longrightarrow> distinct (grant_loop es uid itms)"
  by (induction itms) (auto simp: set_grant_loop)

lemma distinct_insert_earned:
  assumes "distinct (map link_key es)" and "distinct (map it_id itms)"
  shows "distinct (map link_key (insert_earned es uid (grant_loop es uid itms)))"
proof -
  have "distinct (map (Pair uid) (grant_loop es uid itms))"
    using distinct_grant_loop [OF assms(2)] by (simp add: distinct_map inj_on_def)
  moreover have "set (map link_key es) \<inter> set (map (Pair uid) (grant_loop es uid itms)) = {}"
    by (auto simp: set_grant_loop has_link_iff)
  ultimately show ?thesis using assms(1) by (simp add: insert_earned_keys)
qed

lemma grant_loop_all_linked:
  "(\<And>i. i \<in> set itms \<Longrightarrow> has_link es uid (it_id i)) \<Longrightarrow> grant_loop es uid itms = []"
  by (induction itms) auto

lemma has_link_after_grant:
  assumes "i \<in> set itms"
  shows "has_link (insert_earned es uid (grant_loop es uid itms)) uid (it_id i)"
proof (cases "has_link es uid (it_id i)")
  case True
  then show ?thesis by (simp add: has_link_iff insert_earned_keys)
next
  case False
  with assms have "it_id i \<in> set (grant_loop es uid itms)" by (auto simp: set_grant_loop)
  then show ?thesis by (simp add: has_link_iff insert_earned_keys)
qed

lemma committed_complete_level_links:
  assumes "distinct (map it_id (item d))" and "distinct (map link_key (user_earned_items d))"
  shows "distinct (map link_key (user_earned_items (committed d (complete_level x d c))))
         \<and> item (committed d (complete_level x d c)) = item d"
proof (cases "py_int (u_money c)")
  case None
  then show ?thesis using assms by (simp add: committed_complete_level_None)
next
  case (Some m)
  from complete_level_Inr [OF Some, of x d] obtain d' out where
    r: "complete_level x d c = Inr (d', out)" and i: "item d' = item d"
    and e: "user_earned_items d' = insert_earned (user_earned_items d) (u_id c)
          (grant_loop (user_earned_items d) (u_id c)
            (filter (\<lambda>i. it_name i \<in> set (LEVEL_REWARDS_get
               ((if u_level c < 5 then u_level c + 1 else u_level c) - 1))) (item d)))"
    by blast
  have "distinct (map it_id (filter (\<lambda>i. it_name i \<in> set (LEVEL_REWARDS_get
               ((if u_level c < 5 then u_level c + 1 else u_level c) - 1))) (item d)))"
    using assms(1) by (rule distinct_map_filter)
  from distinct_insert_earned [OF assms(2) this] r i e show ?thesis
    by (simp add: committed_def)
qed

lemma complete_level_calls_links:
  "distinct (map it_id (item d)) \<Longrightarrow> distinct (map link_key (user_earned_items d)) \<Longrightarrow>
   distinct (map link_key (user_earned_items (complete_level_calls d uid xs)))"
proof (induction xs arbitrary: d)
  case Nil
  then show ?case by simp
next
  case (Cons x xs)
  show ?case
  proof (cases "get_user d uid")
    case None
    then show ?thesis using Cons by simp
  next
    case (Some c)
    from committed_complete_level_links [OF Cons.prems, of x c]
    have "distinct (map link_key (user_earned_items (committed d (complete_level x d c))))"
      and "distinct (map it_id (item (committed d (complete_level x d c))))"
      using Cons.prems(1) by simp_all
    from Cons.IH [OF this(2) this(1)] Some show ?thesis by simp
  qed
qed

lemma complete_level_Inr_parses:
  assumes "complete_level x d c = Inr r"
  shows "\<exists>m. py_int (u_money c) = Some m"
proof (cases "py_int (u_money c)")
  case None
  then have "complete_level x d c = Inl (HTTPException 500 Formato_invalido_en_campo_money)"
    by (simp add: complete_level_Inl_iff)
  with assms show ?thesis by simp
next
  case (Some m)
  then show ?thesis by blast
qed

lemma complete_level_repeat:
  assumes r1: "complete_level x d c = Inr (d1, o1)"
    and r2: "complete_level y d1 c1 = Inr (d2, o2)"
    and uid: "u_id c1 = u_id c"
    and lv: "(if u_level c1 < 5 then u_level c1 + 1 else u_level c1)
           = (if u_level c < 5 then u_level c + 1 else u_level c)"
  shows "user_earned_items d2 = user_earned_items d1"
proof -
  let ?P = "\<lambda>i. it_name i \<in> set (LEVEL_REWARDS_get
               ((if u_level c < 5 then u_level c + 1 else u_level c) - 1))"
  from complete_level_Inr_parses [OF r1] obtain m where m: "py_int (u_money c) = Some m" ..
  from complete_level_Inr_parses [OF r2] obtain m1 where m1: "py_int (u_money c1) = Some m1" ..
  from complete_level_Inr [OF m, of x d] r1
  have i1: "item d1 = item d"
    and e1: "user_earned_items d1 = insert_earned (user_earned_items d) (u_id c)
          (grant_loop (user_earned_items d) (u_id c) (filter ?P (item d)))"
    by auto
  from complete_level_Inr [OF m1, of y d1] r2 lv uid i1
  have e2: "user_earned_items d2 = insert_earned (user_earned_items d1) (u_id c)
          (grant_loop (user_earned_items d1) (u_id c) (filter ?P (item d)))"
    by auto
  have "grant_loop (user_earned_items d1) (u_id c) (filter ?P (item d)) = []"
    by (rule grant_loop_all_linked) (simp only: e1 has_link_after_grant)
  with e2 show ?thesis by simp
qed

text \<open>
  Claim C2. In a database whose catalog has one row per item key and whose link table
  has at most one row per pair of player and item, the link table still has at most
  one row per pair after any sequence of \<^verbatim>\<open>complete_level\<close> calls. Moreover, when a
  call is followed by a call of the same player that completes the same level (as every
  call from level 4 on does), the second call leaves the link table as it was.
\<close>

theorem earned_items_granted_once:
  assumes "distinct (map it_id (item d))" and "distinct (map link_key (user_earned_items d))"
  shows "distinct (map link_key (user_earned_items (complete_level_calls d uid xs)))
     \<and> (\<forall>x y c c1 d1 o1 d2 o2.
          complete_level x d c = Inr (d1, o1) \<longrightarrow>
          complete_level y d1 c1 = Inr (d2, o2) \<longrightarrow>
          u_id c1 = u_id c \<longrightarrow>
          (if u_level c1 < 5 then u_level c1 + 1 else u_level c1)
            = (if u_level c < 5 then u_level c + 1 else u_level c) \<longrightarrow>
          user_earned_items d2 = user_earned_items d1)"
  using complete_level_calls_links [OF assms] complete_level_repeat by blast

text \<open>
  The theorem at the concrete database with the player at level 4: two calls, the
  second one at the cap.
\<close>

lemma ex4_money: "py_int (u_money ex_user4) = Some 0"
  by (simp add: ex_user4_def ex_money)

theorem earned_items_granted_once_witness:
  "distinct (map it_id (item ex_db4)) \<and> distinct (map link_key (user_earned_items ex_db4))
   \<and> distinct (map link_key (user_earned_items (complete_level_calls ex_db4 1 [ex_data, ex_data])))
   \<and> (\<exists>d1 o1 c1 d2 o2. complete_level ex_data ex_db4 ex_user4 = Inr (d1, o1)
         \<and> get_user d1 1 = Some c1 \<and> u_level c1 = 5
         \<and> complete_level ex_data d1 c1 = Inr (d2, o2)
         \<and> user_earned_items d2 = user_earned_items d1)"
proof -
  have h1: "distinct (map it_id (item ex_db4))"
    by (simp add: ex_db4_def ex_db_def ex_items_def)
  have h2: "distinct (map link_key (user_earned_items ex_db4))"
    by (simp add: ex_db4_def ex_db_def)
  note t = earned_items_granted_once [OF h1 h2, of 1 "[ex_data, ex_data]"]
  let ?c1 = "ex_user4\<lparr>u_level := (if u_level ex_user4 < 5 then u_level ex_user4 + 1 else u_level ex_user4),
                u_money := py_str (0 + coins_earned ex_data)\<rparr>"
  from complete_level_Inr [OF ex4_money, of ex_data ex_db4] obtain d1 o1 where
    r1: "complete_level ex_data ex_db4 ex_user4 = Inr (d1, o1)"
    and u1: "users d1 = store_user ?c1 (users ex_db4)" by blast
  have g1: "get_user d1 1 = Some ?c1"
    using u1 by (simp add: get_user_def store_user_def ex_db4_def ex_user4_def ex_user_def)
  have l1: "u_level ?c1 = 5" by (simp add: ex_user4_def)
  have "py_int (u_money ?c1) = Some (0 + coins_earned ex_data)"
    by (simp add: py_int_py_str)
  from complete_level_Inr [OF this, of ex_data d1] obtain d2 o2 where
    r2: "complete_level ex_data d1 ?c1 = Inr (d2, o2)" by blast
  have lv: "(if u_level ?c1 < 5 then u_level ?c1 + 1 else u_level ?c1)
      = (if u_level ex_user4 < 5 then u_level ex_user4 + 1 else u_level ex_user4)"
    by (simp add: ex_user4_def)
  have uid: "u_id ?c1 = u_id ex_user4" by simp
  from t have "complete_level ex_data ex_db4 ex_user4 = Inr (d1, o1) \<longrightarrow>
          complete_level ex_data d1 ?c1 = Inr (d2, o2) \<longrightarrow>
          u_id ?c1 = u_id ex_user4 \<longrightarrow>
          (if u_level ?c1 < 5 then u_level ?c1 + 1 else u_level ?c1)
            = (if u_level ex_user4 < 5 then u_level ex_user4 + 1 else u_level ex_user4) \<longrightarrow>
          user_earned_items d2 = user_earned_items d1"
    by blast
  with r1 r2 uid lv have "user_earned_items d2 = user_earned_items d1" by blast
  with h1 h2 t r1 r2 g1 l1 show ?thesis by blast
qed

section \<open>The balance over a sequence of calls\<close>






section \<open>The error of \<^verbatim>\<open>complete_level\<close>\<close>






section \<open>Level and balance under the three operations\<close>











section \<open>Sessions\<close>

lemma find_Some_mem: "find P xs = Some x \<Longrightarrow> x \<in> set xs \<and> P x"
  by (induction xs) (auto split: if_splits)

lemma find_None_none: "find P xs = None \<longleftrightarrow> (\<forall>x\<in>set xs. \<not> P x)"
  by (induction xs) auto

text \<open>
  Claim C5. In a database where every session refers to a stored player (the foreign
  key of \<^verbatim>\<open>sessions.user_id\<close>), \<^verbatim>\<open>user_by_token\<close> returns a player exactly when some
  session has this token and an expiry after \<open>now\<close>; the player it returns is stored
  and is the owner of such a session. For a token that no session has, and for a token
  whose sessions all have \<^verbatim>\<open>expires_at <= now\<close>, it returns \<open>None\<close>.
\<close>

theorem user_by_token_valid_iff:
  assumes "\<forall>s\<in>set (sessions d). get_user d (st_user_id s) \<noteq> None"
  shows "((\<exists>u. user_by_token d now token = Some u)
            \<longleftrightarrow> (\<exists>s\<in>set (sessions d). st_token s = token \<and> now < st_expires_at s))
     \<and> (\<forall>u. user_by_token d now token = Some u \<longrightarrow>
           u \<in> set (users d)
           \<and> (\<exists>s\<in>set (sessions d). st_token s = token \<and> now < st_expires_at s
                 \<and> st_user_id s = u_id u))
     \<and> ((\<forall>s\<in>set (sessions d). st_token s = token \<longrightarrow> st_expires_at s \<le> now)
           \<longrightarrow> user_by_token d now token = None)"
proof (cases "find (\<lambda>s. st_token s = token \<and> now < st_expires_at s) (sessions d)")
  case None
  then have n: "\<forall>s\<in>set (sessions d). \<not> (st_token s = token \<and> now < st_expires_at s)"
    by (simp add: find_None_none)
  from None have "user_by_token d now token = None" by (simp add: user_by_token_def)
  with n show ?thesis by auto
next
  case (Some sess)
  from find_Some_mem [OF Some] have s: "sess \<in> set (sessions d)" "st_token sess = token"
    "now < st_expires_at sess" by auto
  from assms s(1) obtain u where u: "get_user d (st_user_id sess) = Some u" by auto
  from Some u have r: "user_by_token d now token = Some u" by (simp add: user_by_token_def)
  from u have "u \<in> set (users d)" "u_id u = st_user_id sess"
    by (simp_all add: get_user_mem get_user_id)
  with r s show ?thesis by force
qed

theorem user_by_token_valid_iff_witness:
  "list_all (\<lambda>s. get_user ex_db (st_user_id s) \<noteq> None) (sessions ex_db)
   \<and> (\<exists>u. user_by_token ex_db 50 ''tok'' = Some u \<and> u \<in> set (users ex_db))
   \<and> user_by_token ex_db 100 ''tok'' = None
   \<and> user_by_token ex_db 50 ''other'' = None"
proof -
  have fk: "\<forall>s\<in>set (sessions ex_db). get_user ex_db (st_user_id s) \<noteq> None"
    by (simp add: ex_db_def get_user_def ex_user_def)
  have v: "\<exists>s\<in>set (sessions ex_db). st_token s = ''tok'' \<and> (50::int) < st_expires_at s"
    by (simp add: ex_db_def)
  have e: "\<forall>s\<in>set (sessions ex_db). st_token s = ''tok'' \<longrightarrow> st_expires_at s \<le> 100"
    by (simp add: ex_db_def)
  have o: "\<forall>s\<in>set (sessions ex_db). st_token s = ''other'' \<longrightarrow> st_expires_at s \<le> 50"
    by (simp add: ex_db_def)
  from user_by_token_valid_iff [OF fk, of 50 "''tok''"] v
  have 1: "\<exists>u. user_by_token ex_db 50 ''tok'' = Some u \<and> u \<in> set (users ex_db)" by blast
  from user_by_token_valid_iff [OF fk, of 100 "''tok''"] e
  have 2: "user_by_token ex_db 100 ''tok'' = None" by blast
  from user_by_token_valid_iff [OF fk, of 50 "''other''"] o
  have 3: "user_by_token ex_db 50 ''other'' = None" by blast
  from fk 1 2 3 show ?thesis by (simp add: list_all_iff)
qed

lemma length_filter_key_distinct:
  "distinct (map f xs) \<Longrightarrow> x \<in> set xs \<Longrightarrow> length (filter (\<lambda>s. f s = f x) xs) = 1"
proof (induction xs)
  case Nil
  then show ?case by simp
next
  case (Cons y ys)
  show ?case
  proof (cases "f y = f x")
    case True
    with Cons.prems(1) have "f x \<notin> f ` set ys" by simp
    then have "\<forall>s\<in>set ys. f s \<noteq> f x" by (metis imageI)
    then have "filter (\<lambda>s. f s = f x) ys = []" by (simp add: filter_empty_conv)
    with True show ?thesis by simp
  next
    case False
    with Cons show ?thesis by auto
  qed
qed

text \<open>
  Claim C10. \<^verbatim>\<open>logout\<close> removes the sessions with the given token and keeps all the
  others, in their order, and it changes no other table. A second \<^verbatim>\<open>logout\<close> with the
  same token leaves the database of the first and returns the count 0. With tokens
  unique in the table, the first \<^verbatim>\<open>logout\<close> of a token that has a session returns 1.
\<close>

theorem logout_idempotent:
  "logout token (fst (logout token d)) = (fst (logout token d), 0)
   \<and> sessions (fst (logout token d)) = filter (\<lambda>s. st_token s \<noteq> token) (sessions d)
   \<and> (\<forall>t. t \<noteq> token \<longrightarrow>
         filter (\<lambda>s. st_token s = t) (sessions (fst (logout token d)))
           = filter (\<lambda>s. st_token s = t) (sessions d))
   \<and> users (fst (logout token d)) = users d
   \<and> user_time (fst (logout token d)) = user_time d
   \<and> item (fst (logout token d)) = item d
   \<and> user_earned_items (fst (logout token d)) = user_earned_items d
   \<and> (distinct (map st_token (sessions d)) \<longrightarrow>
        (\<exists>s\<in>set (sessions d). st_token s = token) \<longrightarrow> snd (logout token d) = 1)"
proof -
  have 1: "logout token (fst (logout token d)) = (fst (logout token d), 0)"
    by (simp add: logout_def)
  have 2: "filter (\<lambda>s. st_token s = t) (sessions (fst (logout token d)))
           = filter (\<lambda>s. st_token s = t) (sessions d)" if "t \<noteq> token" for t
    using that by (auto simp: logout_def intro: filter_cong)
  have 3: "snd (logout token d) = 1"
    if "distinct (map st_token (sessions d))" "\<exists>s\<in>set (sessions d). st_token s = token"
    using that length_filter_key_distinct [of st_token "sessions d"]
    by (auto simp: logout_def)
  from 1 2 3 show ?thesis by (simp add: logout_def)
qed

theorem logout_idempotent_witness:
  "distinct (map st_token (sessions ex_db))
   \<and> (\<exists>s\<in>set (sessions ex_db). st_token s = ''tok'')
   \<and> snd (logout ''tok'' ex_db) = 1
   \<and> logout ''tok'' (fst (logout ''tok'' ex_db)) = (fst (logout ''tok'' ex_db), 0)"
proof -
  have h1: "distinct (map st_token (sessions ex_db))" by (simp add: ex_db_def)
  have h2: "\<exists>s\<in>set (sessions ex_db). st_token s = ''tok''" by (simp add: ex_db_def)
  from logout_idempotent [of "''tok''" ex_db] h1 h2 show ?thesis by blast
qed

section \<open>\<^verbatim>\<open>update_me\<close>: validation and the money field\<close>

text \<open>
  Claim C8. A patch whose school is present and is not one of the three fixed values
  is refused before the handler runs, by the schema of the request; the handler itself
  would refuse it too, with status 400, after it has assigned the name to the session's
  object and before any commit. Either way the response is an error and the committed
  database is the one before the call, the name included.
\<close>

theorem update_rejects_invalid_school:
  assumes "um_school data = Some s" and "s \<notin> set SCHOOL_VALUES"
  shows "put_me data d current = (d, Inl RequestValidationError)
     \<and> update_me data d current = Inl (HTTPException 400 School_invalido)
     \<and> committed d (update_me data d current) = d"
  using assms by (simp add: put_me_def UpdateMeIn_valid_def update_me_def Let_def committed_def)

theorem update_rejects_invalid_school_witness:
  "um_school ex_bad_school = Some ''InvalidSchool'' \<and> ''InvalidSchool'' \<notin> set SCHOOL_VALUES
   \<and> um_name ex_bad_school = Some ''Eva''
   \<and> put_me ex_bad_school ex_db ex_user = (ex_db, Inl RequestValidationError)
   \<and> update_me ex_bad_school ex_db ex_user = Inl (HTTPException 400 School_invalido)
   \<and> committed ex_db (update_me ex_bad_school ex_db ex_user) = ex_db"
proof -
  have h1: "um_school ex_bad_school = Some ''InvalidSchool''"
    and h3: "um_name ex_bad_school = Some ''Eva''"
    by (simp_all add: ex_bad_school_def)
  have h2: "''InvalidSchool'' \<notin> set SCHOOL_VALUES" by (simp add: SCHOOL_VALUES_def)
  from update_rejects_invalid_school [OF h1 h2, of ex_db ex_user] h1 h2 h3
  show ?thesis by blast
qed

text \<open>
  Claim C9. A patch with the money field alone passes the schema whatever the text
  \<open>m\<close> is, the handler raises nothing, and the row it commits for the player has \<open>m\<close>
  as its balance, all other columns as before.
\<close>

theorem update_me_money_verbatim:
  assumes "get_user d uid = Some current"
  shows "UpdateMeIn_valid \<lparr>um_name = None, um_school = None, um_gender = None,
                           um_money = Some m, um_level = None\<rparr>
     \<and> (\<exists>d'. update_me \<lparr>um_name = None, um_school = None, um_gender = None,
                          um_money = Some m, um_level = None\<rparr> d current
               = Inr (d', current\<lparr>u_money := m\<rparr>)
            \<and> get_user d' uid = Some (current\<lparr>u_money := m\<rparr>))"
proof -
  have "u_id (current\<lparr>u_money := m\<rparr>) = uid" using get_user_id [OF assms] by simp
  with assms have "find (\<lambda>u. u_id u = uid) (store_user (current\<lparr>u_money := m\<rparr>) (users d))
      = Some (current\<lparr>u_money := m\<rparr>)"
    by (simp add: get_user_def find_store_user_same)
  then show ?thesis
    by (simp add: UpdateMeIn_valid_def update_me_def Let_def get_user_def)
qed

theorem update_me_money_verbatim_witness:
  "get_user ex_db 1 = Some ex_user
   \<and> (\<exists>d'. update_me \<lparr>um_name = None, um_school = None, um_gender = None,
                        um_money = Some ''abc'', um_level = None\<rparr> ex_db ex_user
               = Inr (d', ex_user\<lparr>u_money := ''abc''\<rparr>)
          \<and> get_user d' 1 = Some (ex_user\<lparr>u_money := ''abc''\<rparr>))
   \<and> py_int ''abc'' = None"
proof -
  have "py_int ''abc'' = None"
    by (simp add: py_int_def strip_sign_def is_space_def is_digit_def)
  with update_me_money_verbatim [OF ex_get, of "''abc''"] ex_get show ?thesis by blast
qed

section \<open>The responses of \<^verbatim>\<open>register\<close> and \<^verbatim>\<open>update_me\<close>\<close>

lemma UserOut_from_User_attrs:
  "UserOut_from_attributes (User_attrs usr) = Inl ResponseValidationError"
  by (simp add: UserOut_from_attributes_def User_attrs_def attr_int_def attr_str_def
      attr_items_def)

text \<open>
  Claim C6. The claim asks for the view of the player with its items, empty after a
  registration, as \<^verbatim>\<open>login\<close>, \<^verbatim>\<open>me\<close> and \<^verbatim>\<open>complete_level\<close> build it. \<^verbatim>\<open>register\<close>
  and \<^verbatim>\<open>update_me\<close> return the \<^verbatim>\<open>User\<close> row instead, which has no \<^verbatim>\<open>items\<close>, so the
  declared \<^verbatim>\<open>UserOut\<close> cannot be built from it: on the concrete database the new player
  and the patched player are committed and the response is a response validation
  error, not the view.
\<close>

theorem register_and_update_return_no_view:
  "post_auth_register ex_payload ex_db
     = (ex_db\<lparr>users := [ex_user,
          \<lparr>u_id = 2, u_document = ''B34'', u_name = ''Luis'', u_school = ''Aractaca'',
           u_gender = ''Masculino'', u_money = ''0'', u_level = 1\<rparr>]\<rparr>,
        Inl ResponseValidationError)
   \<and> put_me \<lparr>um_name = Some ''Eva'', um_school = None, um_gender = None,
              um_money = None, um_level = None\<rparr> ex_db ex_user
     = (ex_db\<lparr>users := [ex_user\<lparr>u_name := ''Eva''\<rparr>]\<rparr>, Inl ResponseValidationError)
   \<and> build_user_out ex_db ex_user
     = \<lparr>uo_id = 1, uo_document = ''A12'', uo_name = ''Ana'', uo_school = ''Aguachica'',
        uo_gender = ''Femenino'', uo_money = ''0'', uo_level = 1, uo_items = []\<rparr>"
  by code_simp

end
